theory Spec2Isabelle
  imports Main
begin

section \<open>External declarations used by p2p/base/transport_description.cc\<close>

text \<open>
  The protocol constants of \<^verbatim>\<open>p2p/base/p2p_constants.h\<close> are declared outside the
  translated file. Every function that reads one of them takes the whole table as its
  first argument, so each result holds for whatever values the header supplies. The four
  length bounds are unsigned sizes; the four role tokens are character strings.
\<close>

record p2p_constants =
  ICE_UFRAG_MIN_LENGTH :: nat
  ICE_UFRAG_MAX_LENGTH :: nat
  ICE_PWD_MIN_LENGTH :: nat
  ICE_PWD_MAX_LENGTH :: nat
  CONNECTIONROLE_ACTIVE_STR :: string
  CONNECTIONROLE_PASSIVE_STR :: string
  CONNECTIONROLE_ACTPASS_STR :: string
  CONNECTIONROLE_HOLDCONN_STR :: string

text \<open>
  The values the ICE and DTLS-SRTP specifications fix for these constants; they serve as
  the concrete table at which the general results are instantiated.
\<close>

definition rfc_constants :: p2p_constants where
  "rfc_constants =
     \<lparr>ICE_UFRAG_MIN_LENGTH = 4, ICE_UFRAG_MAX_LENGTH = 256,
      ICE_PWD_MIN_LENGTH = 22, ICE_PWD_MAX_LENGTH = 256,
      CONNECTIONROLE_ACTIVE_STR = ''active'', CONNECTIONROLE_PASSIVE_STR = ''passive'',
      CONNECTIONROLE_ACTPASS_STR = ''actpass'', CONNECTIONROLE_HOLDCONN_STR = ''holdconn''\<rparr>"

text \<open>
  Modelled from the spec: the error type of \<^verbatim>\<open>api/rtc_error.h\<close> is not part of the
  translated file. The spec describes it as a structured error carrying a kind and a
  human-readable message, \<^verbatim>\<open>SYNTAX_ERROR\<close> being the only kind this file produces.
  \<^verbatim>\<open>RTCErrorOr<T>\<close> is the sum of an error and a value.
\<close>

datatype RTCErrorType = NONE | INVALID_PARAMETER | SYNTAX_ERROR | INTERNAL_ERROR

datatype RTCError = RTCError RTCErrorType string

type_synonym 'a RTCErrorOr = "RTCError + 'a"

text \<open>
  Modelled from the spec: \<^verbatim>\<open>IceParameters\<close> is declared in the header; the spec gives
  it the two string fields below, both empty after default construction.
\<close>

record IceParameters =
  ufrag :: string
  pwd :: string

definition IceParameters_default :: IceParameters where
  "IceParameters_default = \<lparr>ufrag = [], pwd = []\<rparr>"

subsection \<open>Abseil character and string helpers\<close>

text \<open>
  \<^verbatim>\<open>absl::ascii_isalnum\<close> classifies a byte by its ASCII code only: digits 48..57,
  upper-case letters 65..90, lower-case letters 97..122. Bytes from 128 on are never
  alphanumeric.
\<close>

definition ascii_isalnum :: "char \<Rightarrow> bool" where
  "ascii_isalnum c =
     (let n = (of_char c :: nat)
      in (48 \<le> n \<and> n \<le> 57) \<or> (65 \<le> n \<and> n \<le> 90) \<or> (97 \<le> n \<and> n \<le> 122))"

text \<open>\<^verbatim>\<open>absl::ascii_tolower\<close> moves the codes 65..90 up by 32 and keeps every other byte.\<close>

definition ascii_tolower :: "char \<Rightarrow> char" where
  "ascii_tolower c =
     (let n = (of_char c :: nat) in if 65 \<le> n \<and> n \<le> 90 then char_of (n + 32) else c)"

text \<open>
  \<^verbatim>\<open>absl::EqualsIgnoreCase\<close>: the two views have the same size and agree byte by byte
  after lower-casing.
\<close>

definition EqualsIgnoreCase :: "string \<Rightarrow> string \<Rightarrow> bool" where
  "EqualsIgnoreCase piece1 piece2 =
     (length piece1 = length piece2 \<and> map ascii_tolower piece1 = map ascii_tolower piece2)"

text \<open>
  \<^verbatim>\<open>rtc::StringBuilder\<close> appends an unsigned size in decimal, most significant digit
  first, without padding.
\<close>

fun string_of_nat :: "nat \<Rightarrow> string" where
  "string_of_nat n =
     (if n < 10 then [char_of (48 + n)]
      else string_of_nat (n div 10) @ [char_of (48 + n mod 10)])"

declare string_of_nat.simps [simp del]

section \<open>Credential validator\<close>

definition IsIceChar :: "char \<Rightarrow> bool" where
  "IsIceChar c = (ascii_isalnum c \<or> c = CHR ''+'' \<or> c = CHR ''/'')"

definition ufrag_length_message :: "p2p_constants \<Rightarrow> string" where
  "ufrag_length_message k =
     ''ICE ufrag must be between '' @ string_of_nat (ICE_UFRAG_MIN_LENGTH k) @ '' and '' @
     string_of_nat (ICE_UFRAG_MAX_LENGTH k) @ '' characters long.''"

definition ufrag_chars_message :: string where
  "ufrag_chars_message =
     ''ICE ufrag must contain only alphanumeric characters, '' @ [CHR 0x27] @ ''+'' @
     [CHR 0x27] @ '', and '' @ [CHR 0x27] @ ''/'' @ [CHR 0x27] @ ''.''"

definition ParseIceUfrag :: "p2p_constants \<Rightarrow> string \<Rightarrow> string RTCErrorOr" where
  "ParseIceUfrag k raw_ufrag =
     (if \<not> (ICE_UFRAG_MIN_LENGTH k \<le> length raw_ufrag \<and>
             length raw_ufrag \<le> ICE_UFRAG_MAX_LENGTH k)
      then Inl (RTCError SYNTAX_ERROR (ufrag_length_message k))
      else if \<not> list_all IsIceChar raw_ufrag
      then Inl (RTCError SYNTAX_ERROR ufrag_chars_message)
      else Inr raw_ufrag)"

definition pwd_length_message :: "p2p_constants \<Rightarrow> string" where
  "pwd_length_message k =
     ''ICE pwd must be between '' @ string_of_nat (ICE_PWD_MIN_LENGTH k) @ '' and '' @
     string_of_nat (ICE_PWD_MAX_LENGTH k) @ '' characters long.''"

definition pwd_chars_message :: string where
  "pwd_chars_message =
     ''ICE pwd must contain only alphanumeric characters, '' @ [CHR 0x27] @ ''+'' @
     [CHR 0x27] @ '', and '' @ [CHR 0x27] @ ''/'' @ [CHR 0x27] @ ''.''"

definition ParseIcePwd :: "p2p_constants \<Rightarrow> string \<Rightarrow> string RTCErrorOr" where
  "ParseIcePwd k raw_pwd =
     (if \<not> (ICE_PWD_MIN_LENGTH k \<le> length raw_pwd \<and>
             length raw_pwd \<le> ICE_PWD_MAX_LENGTH k)
      then Inl (RTCError SYNTAX_ERROR (pwd_length_message k))
      else if \<not> list_all IsIceChar raw_pwd
      then Inl (RTCError SYNTAX_ERROR pwd_chars_message)
      else Inr raw_pwd)"

text \<open>
  \<^verbatim>\<open>IceParameters::Parse\<close>: the legacy path for two empty inputs comes first; otherwise
  the ufrag is parsed, its error returned at once, and only then the pwd.
\<close>

definition IceParameters_Parse ::
  "p2p_constants \<Rightarrow> string \<Rightarrow> string \<Rightarrow> IceParameters RTCErrorOr" where
  "IceParameters_Parse k raw_ufrag raw_pwd =
     (if raw_ufrag = [] \<and> raw_pwd = [] then Inr IceParameters_default
      else case ParseIceUfrag k raw_ufrag of
        Inl ufrag_error \<Rightarrow> Inl ufrag_error
      | Inr ufrag_value \<Rightarrow>
          (case ParseIcePwd k raw_pwd of
             Inl pwd_error \<Rightarrow> Inl pwd_error
           | Inr pwd_value \<Rightarrow>
               Inr (IceParameters_default\<lparr>ufrag := ufrag_value, pwd := pwd_value\<rparr>)))"


section \<open>Connection roles\<close>

text \<open>
  Modelled from the spec: \<^verbatim>\<open>enum ConnectionRole\<close> is declared in the header. The spec
  lists its members as None, Active, Passive, ActPass, HoldConn; C++ numbers them from 0
  in that order. The code does arithmetic on the enumerators and casts an integer back,
  and a variable of the type can hold values besides the five named ones, so a role is
  kept as its integer value.
\<close>

type_synonym ConnectionRole = int

definition CONNECTIONROLE_NONE :: ConnectionRole where
  "CONNECTIONROLE_NONE = 0"

definition CONNECTIONROLE_ACTIVE :: ConnectionRole where
  "CONNECTIONROLE_ACTIVE = 1"

definition CONNECTIONROLE_PASSIVE :: ConnectionRole where
  "CONNECTIONROLE_PASSIVE = 2"

definition CONNECTIONROLE_ACTPASS :: ConnectionRole where
  "CONNECTIONROLE_ACTPASS = 3"

definition CONNECTIONROLE_HOLDCONN :: ConnectionRole where
  "CONNECTIONROLE_HOLDCONN = 4"

text \<open>
  Both conversions write through a pointer. The value the pointer's target holds before
  the call is the last argument; the result pairs the returned flag with the value the
  target holds afterwards.
\<close>

function StringToConnectionRole_loop ::
  "string list \<Rightarrow> nat \<Rightarrow> string \<Rightarrow> ConnectionRole \<Rightarrow> bool \<times> ConnectionRole" where
  "StringToConnectionRole_loop roles i role_str role =
     (if i < length roles then
        if EqualsIgnoreCase (roles ! i) role_str
        then (True, CONNECTIONROLE_ACTIVE + int i)
        else StringToConnectionRole_loop roles (Suc i) role_str role
      else (False, role))"
  by pat_completeness auto
termination
  by (relation "measure (\<lambda>(roles, i, role_str, role). length roles - i)") auto

declare StringToConnectionRole_loop.simps [simp del]

definition StringToConnectionRole ::
  "p2p_constants \<Rightarrow> string \<Rightarrow> ConnectionRole \<Rightarrow> bool \<times> ConnectionRole" where
  "StringToConnectionRole k role_str role =
     (let roles = [CONNECTIONROLE_ACTIVE_STR k, CONNECTIONROLE_PASSIVE_STR k,
                   CONNECTIONROLE_ACTPASS_STR k, CONNECTIONROLE_HOLDCONN_STR k]
      in StringToConnectionRole_loop roles 0 role_str role)"

definition ConnectionRoleToString ::
  "p2p_constants \<Rightarrow> ConnectionRole \<Rightarrow> string \<Rightarrow> bool \<times> string" where
  "ConnectionRoleToString k role role_str =
     (if role = CONNECTIONROLE_ACTIVE then (True, CONNECTIONROLE_ACTIVE_STR k)
      else if role = CONNECTIONROLE_ACTPASS then (True, CONNECTIONROLE_ACTPASS_STR k)
      else if role = CONNECTIONROLE_PASSIVE then (True, CONNECTIONROLE_PASSIVE_STR k)
      else if role = CONNECTIONROLE_HOLDCONN then (True, CONNECTIONROLE_HOLDCONN_STR k)
      else (False, role_str))"

section \<open>Transport descriptions\<close>

datatype IceMode = ICEMODE_FULL | ICEMODE_LITE

text \<open>
  Modelled from the spec: the certificate fingerprint is an external type, consumed as an
  opaque value that can be copied and compared. Fingerprints live on the heap, a list of
  cells indexed by address; a freed cell is \<open>None\<close> and \<^verbatim>\<open>new\<close> takes the next
  address past the end, so an address is never handed out twice.
\<close>

record SSLFingerprint =
  algorithm :: string
  digest :: string

type_synonym address = nat

type_synonym fingerprint_heap = "SSLFingerprint option list"

definition read_fingerprint :: "fingerprint_heap \<Rightarrow> address \<Rightarrow> SSLFingerprint option" where
  "read_fingerprint h a = (if a < length h then h ! a else None)"

text \<open>
  Modelled from the spec: \<^verbatim>\<open>TransportDescription\<close> is declared in the header with the
  seven fields the spec lists. \<^verbatim>\<open>identity_fingerprint\<close> is an owning pointer, null or
  the address of a heap cell; \<^verbatim>\<open>opaque_parameters\<close> is a mapping copied by value.
\<close>

record TransportDescription =
  transport_options :: "string list"
  ice_ufrag :: string
  ice_pwd :: string
  ice_mode :: IceMode
  connection_role :: ConnectionRole
  identity_fingerprint :: "address option"
  opaque_parameters :: "(string \<times> string) list"

text \<open>
  Instances are reached by reference, and the assignment operator compares the addresses
  of its two operands, so memory holds the instances by address next to the heap.
\<close>

record memory =
  descriptions :: "address \<Rightarrow> TransportDescription"
  fingerprints :: fingerprint_heap

text \<open>
  Modelled from the spec: \<^verbatim>\<open>CopyFingerprint\<close> is a static helper defined in the header.
  By the spec a null pointer gives a null pointer, and any other pointer gives a newly
  allocated copy of the fingerprint it points to. Reading through a pointer to no live
  cell has no defined behaviour in C++; the model returns \<open>None\<close> there.
\<close>

definition CopyFingerprint ::
  "fingerprint_heap \<Rightarrow> address option \<Rightarrow> (address option \<times> fingerprint_heap) option" where
  "CopyFingerprint h from =
     (case from of
        None \<Rightarrow> Some (None, h)
      | Some a \<Rightarrow>
          (case read_fingerprint h a of
             None \<Rightarrow> None
           | Some fp \<Rightarrow> Some (Some (length h), h @ [Some fp])))"

text \<open>
  What an owning pointer does with the object it held when it is reset: nothing for null,
  \<^verbatim>\<open>delete\<close> otherwise. Deleting what is not a live cell has no defined behaviour.
\<close>

definition delete_fingerprint ::
  "fingerprint_heap \<Rightarrow> address option \<Rightarrow> fingerprint_heap option" where
  "delete_fingerprint h old =
     (case old of
        None \<Rightarrow> Some h
      | Some a \<Rightarrow>
          (case read_fingerprint h a of
             None \<Rightarrow> None
           | Some fp \<Rightarrow> Some (h[a := None])))"

definition TransportDescription_default :: TransportDescription where
  "TransportDescription_default =
     \<lparr>transport_options = [], ice_ufrag = [], ice_pwd = [], ice_mode = ICEMODE_FULL,
      connection_role = CONNECTIONROLE_NONE, identity_fingerprint = None,
      opaque_parameters = []\<rparr>"


text \<open>
  The assignment operator returns at once when both operands are the same instance.
  Otherwise it assigns the five plain fields, then resets the owning pointer to a new
  copy of the source's fingerprint (the copy is made first, the old fingerprint freed
  after), then assigns the opaque parameters.
\<close>

definition TransportDescription_assign :: "memory \<Rightarrow> address \<Rightarrow> address \<Rightarrow> memory option" where
  "TransportDescription_assign m this from =
     (if this = from then Some m
      else
        let src = descriptions m from;
            dst = (descriptions m this)
                    \<lparr>transport_options := transport_options src,
                     ice_ufrag := ice_ufrag src,
                     ice_pwd := ice_pwd src,
                     ice_mode := ice_mode src,
                     connection_role := connection_role src\<rparr>
        in case CopyFingerprint (fingerprints m) (identity_fingerprint src) of
             None \<Rightarrow> None
           | Some (copied, h1) \<Rightarrow>
               (case delete_fingerprint h1 (identity_fingerprint dst) of
                  None \<Rightarrow> None
                | Some h2 \<Rightarrow>
                    Some \<lparr>descriptions = (descriptions m)
                            (this := dst\<lparr>identity_fingerprint := copied,
                                         opaque_parameters := opaque_parameters src\<rparr>),
                          fingerprints = h2\<rparr>))"

section \<open>Notions used in the statements\<close>

text \<open>\<^verbatim>\<open>RTCErrorOr<T>::ok()\<close>: the result holds a value, not an error.\<close>

definition ok :: "'a RTCErrorOr \<Rightarrow> bool" where
  "ok r = (case r of Inl _ \<Rightarrow> False | Inr _ \<Rightarrow> True)"

text \<open>The allowed characters, written out: the 62 ASCII letters and digits, plus and slash.\<close>

definition alnum_chars :: string where
  "alnum_chars = ''0123456789ABCDEFGHIJKLMNOPQRSTUVWXYZabcdefghijklmnopqrstuvwxyz''"

definition ice_chars :: string where
  "ice_chars = alnum_chars @ ''+/''"

text \<open>The number a string of decimal digits denotes.\<close>

fun decimal_value :: "string \<Rightarrow> nat" where
  "decimal_value ds = foldl (\<lambda>acc d. 10 * acc + (of_char d - 48)) 0 ds"

text \<open>
  Two strings are the same up to letter case when they have the same length and each
  character of the first is the matching character of the second, possibly with its
  ASCII case changed.
\<close>

definition ascii_toupper :: "char \<Rightarrow> char" where
  "ascii_toupper c =
     (let n = (of_char c :: nat) in if 97 \<le> n \<and> n \<le> 122 then char_of (n - 32) else c)"

definition same_up_to_case :: "string \<Rightarrow> string \<Rightarrow> bool" where
  "same_up_to_case s t =
     list_all2 (\<lambda>a b. a = b \<or> a = ascii_toupper b \<or> a = ascii_tolower b) s t"

text \<open>The four roles that have a token, each with its token.\<close>

definition role_tokens :: "p2p_constants \<Rightarrow> (ConnectionRole \<times> string) list" where
  "role_tokens k =
     [(CONNECTIONROLE_ACTIVE, CONNECTIONROLE_ACTIVE_STR k),
      (CONNECTIONROLE_PASSIVE, CONNECTIONROLE_PASSIVE_STR k),
      (CONNECTIONROLE_ACTPASS, CONNECTIONROLE_ACTPASS_STR k),
      (CONNECTIONROLE_HOLDCONN, CONNECTIONROLE_HOLDCONN_STR k)]"






text \<open>
  A memory with two instances for running the copy operations: the instance at address 0
  owns the fingerprint in cell 0, the instance at address 1 owns the one in cell 1, and
  every other address holds a default-constructed instance.
\<close>

definition example_memory :: memory where
  "example_memory =
     \<lparr>descriptions = (\<lambda>a. TransportDescription_default)
        (0 := \<lparr>transport_options = [''trickle''], ice_ufrag = ''abcd'',
                ice_pwd = ''0123456789abcdefghij+/'', ice_mode = ICEMODE_LITE,
                connection_role = CONNECTIONROLE_ACTIVE, identity_fingerprint = Some 0,
                opaque_parameters = [(''protocol'', ''parameters'')]\<rparr>,
         1 := TransportDescription_default\<lparr>identity_fingerprint := Some 1\<rparr>),
      fingerprints = [Some \<lparr>algorithm = ''sha-256'', digest = ''AB:CD''\<rparr>,
                      Some \<lparr>algorithm = ''sha-1'', digest = ''12:34''\<rparr>]\<rparr>"

section \<open>The allowed character set\<close>

lemma alnum_codes:
  "map char_of ([48..<58] @ [65..<91] @ [97..<123] :: nat list) = alnum_chars"
  by code_simp

lemma ice_chars_allowed: "list_all IsIceChar ice_chars"
  by (simp add: ice_chars_def alnum_chars_def IsIceChar_def ascii_isalnum_def)

lemma ascii_isalnum_listed:
  assumes "ascii_isalnum c"
  shows "c \<in> set alnum_chars"
proof -
  define n where "n = (of_char c :: nat)"
  have "n \<in> {48..<58} \<union> {65..<91} \<union> {97..<123}"
    using assms unfolding ascii_isalnum_def Let_def n_def atLeastLessThan_iff Un_iff
    by linarith
  then have "n \<in> set ([48..<58] @ [65..<91] @ [97..<123])"
    by (simp only: set_append set_upt Un_assoc)
  then have "char_of n \<in> set (map char_of ([48..<58] @ [65..<91] @ [97..<123] :: nat list))"
    by (metis image_eqI set_map)
  moreover have "char_of n = c"
    by (simp add: n_def)
  ultimately show ?thesis
    by (simp only: alnum_codes)
qed

lemma IsIceChar_iff: "IsIceChar c \<longleftrightarrow> c \<in> set ice_chars"
proof
  assume "IsIceChar c"
  then consider "ascii_isalnum c" | "c = CHR ''+''" | "c = CHR ''/''"
    unfolding IsIceChar_def by blast
  then show "c \<in> set ice_chars"
  proof cases
    case 1
    then have "c \<in> set alnum_chars" by (rule ascii_isalnum_listed)
    then show ?thesis by (simp add: ice_chars_def)
  next
    case 2
    then show ?thesis by (simp add: ice_chars_def)
  next
    case 3
    then show ?thesis by (simp add: ice_chars_def)
  qed
next
  assume "c \<in> set ice_chars"
  then show "IsIceChar c"
    using ice_chars_allowed by (simp add: list_all_iff)
qed

lemma list_all_IsIceChar: "list_all IsIceChar s \<longleftrightarrow> set s \<subseteq> set ice_chars"
  by (auto simp: list_all_iff IsIceChar_iff)

section \<open>Decimal rendering of the bounds\<close>

text \<open>
  The digits the string builder writes denote the number written, so a length message
  determines the two bounds it names.
\<close>

lemma decimal_value_string_of_nat: "decimal_value (string_of_nat n) = n"
proof (induction n rule: string_of_nat.induct)
  case (1 n)
  show ?case
  proof (cases "n < 10")
    case True
    then show ?thesis by (simp add: string_of_nat.simps [of n])
  next
    case False
    have "n mod 10 < 10" by simp
    then have digit: "of_char (char_of (48 + n mod 10) :: char) = 48 + n mod 10"
      by (simp add: mod_if)
    from False 1 have "decimal_value (string_of_nat (n div 10)) = n div 10" by simp
    with False digit show ?thesis
      by (simp add: string_of_nat.simps [of n])
  qed
qed

lemma string_of_nat_inj: "string_of_nat m = string_of_nat n \<Longrightarrow> m = n"
  by (metis decimal_value_string_of_nat)

lemma rfc_bounds_rendered:
  "string_of_nat 4 = ''4''" "string_of_nat 22 = ''22''" "string_of_nat 256 = ''256''"
  by code_simp+

section \<open>Results on the credential validator\<close>

text \<open>
  Claim C1. Whenever \<^verbatim>\<open>IceParameters::Parse\<close> succeeds, its result either has both
  fields empty, or has both fields non-empty with each field inside its length bounds and
  made of allowed characters only; a result with exactly one empty field never comes
  out. In particular parsing an empty ufrag together with a non-empty pwd fails. The two
  minimum lengths are positive, as they are in the protocol (an empty string violates the
  minimum).
\<close>

theorem IceParameters_Parse_empty_or_validated:
  assumes "0 < ICE_UFRAG_MIN_LENGTH k" and "0 < ICE_PWD_MIN_LENGTH k"
  shows "(\<forall>r. IceParameters_Parse k raw_ufrag raw_pwd = Inr r \<longrightarrow>
            (ufrag r = [] \<and> pwd r = []) \<or>
            (ufrag r \<noteq> [] \<and> pwd r \<noteq> [] \<and>
             ICE_UFRAG_MIN_LENGTH k \<le> length (ufrag r) \<and>
             length (ufrag r) \<le> ICE_UFRAG_MAX_LENGTH k \<and>
             set (ufrag r) \<subseteq> set ice_chars \<and>
             ICE_PWD_MIN_LENGTH k \<le> length (pwd r) \<and>
             length (pwd r) \<le> ICE_PWD_MAX_LENGTH k \<and>
             set (pwd r) \<subseteq> set ice_chars)) \<and>
         (raw_pwd \<noteq> [] \<longrightarrow> \<not> ok (IceParameters_Parse k [] raw_pwd))"
  using assms
  by (auto simp: IceParameters_Parse_def ParseIceUfrag_def ParseIcePwd_def
        IceParameters_default_def ok_def list_all_IsIceChar
      split: if_splits sum.splits)

theorem IceParameters_Parse_empty_or_validated_witness:
  "0 < ICE_UFRAG_MIN_LENGTH rfc_constants \<and> 0 < ICE_PWD_MIN_LENGTH rfc_constants \<and>
   IceParameters_Parse rfc_constants ''abcd'' ''0123456789abcdefghij+/'' =
     Inr \<lparr>ufrag = ''abcd'', pwd = ''0123456789abcdefghij+/''\<rparr> \<and>
   set ''abcd'' \<subseteq> set ice_chars \<and>
   set ''0123456789abcdefghij+/'' \<subseteq> set ice_chars \<and>
   \<not> ok (IceParameters_Parse rfc_constants [] ''validpwdvalidpwd'')"
proof -
  have ufrag_min: "0 < ICE_UFRAG_MIN_LENGTH rfc_constants"
    and pwd_min: "0 < ICE_PWD_MIN_LENGTH rfc_constants"
    by (simp_all add: rfc_constants_def)
  have run: "IceParameters_Parse rfc_constants ''abcd'' ''0123456789abcdefghij+/'' =
     Inr \<lparr>ufrag = ''abcd'', pwd = ''0123456789abcdefghij+/''\<rparr>"
    by (simp add: IceParameters_Parse_def ParseIceUfrag_def ParseIcePwd_def
          IceParameters_default_def rfc_constants_def IsIceChar_def ascii_isalnum_def)
  from IceParameters_Parse_empty_or_validated
         [OF ufrag_min pwd_min, of "''abcd''" "''0123456789abcdefghij+/''"] run
  have "set ''abcd'' \<subseteq> set ice_chars \<and> set ''0123456789abcdefghij+/'' \<subseteq> set ice_chars"
    by simp
  moreover from IceParameters_Parse_empty_or_validated
         [OF ufrag_min pwd_min, of "[]" "''validpwdvalidpwd''"]
  have "\<not> ok (IceParameters_Parse rfc_constants [] ''validpwdvalidpwd'')"
    by simp
  ultimately show ?thesis
    using ufrag_min pwd_min run by simp
qed

text \<open>
  Claim C2. For a string whose length is within the ufrag bounds, \<^verbatim>\<open>ParseIceUfrag\<close>
  succeeds exactly when every character is an ASCII letter, a digit, plus or slash; when
  it succeeds it returns the string unchanged, and when it fails the error is a
  \<^verbatim>\<open>SYNTAX_ERROR\<close> (with the character-set message). The same holds for
  \<^verbatim>\<open>ParseIcePwd\<close> and the pwd bounds.
\<close>

theorem ParseIce_within_bounds:
  "(ICE_UFRAG_MIN_LENGTH k \<le> length s \<and> length s \<le> ICE_UFRAG_MAX_LENGTH k \<longrightarrow>
      (ok (ParseIceUfrag k s) = (set s \<subseteq> set ice_chars)) \<and>
      (ok (ParseIceUfrag k s) \<longrightarrow> ParseIceUfrag k s = Inr s) \<and>
      (\<not> ok (ParseIceUfrag k s) \<longrightarrow>
         ParseIceUfrag k s = Inl (RTCError SYNTAX_ERROR ufrag_chars_message))) \<and>
   (ICE_PWD_MIN_LENGTH k \<le> length s \<and> length s \<le> ICE_PWD_MAX_LENGTH k \<longrightarrow>
      (ok (ParseIcePwd k s) = (set s \<subseteq> set ice_chars)) \<and>
      (ok (ParseIcePwd k s) \<longrightarrow> ParseIcePwd k s = Inr s) \<and>
      (\<not> ok (ParseIcePwd k s) \<longrightarrow>
         ParseIcePwd k s = Inl (RTCError SYNTAX_ERROR pwd_chars_message)))"
  by (simp add: ParseIceUfrag_def ParseIcePwd_def ok_def list_all_IsIceChar)

theorem ParseIce_within_bounds_witness:
  "ParseIceUfrag rfc_constants ''0123456789abcdefghij+/'' = Inr ''0123456789abcdefghij+/'' \<and>
   ParseIcePwd rfc_constants ''0123456789abcdefghij+/'' = Inr ''0123456789abcdefghij+/'' \<and>
   ParseIceUfrag rfc_constants ''0123456789abcdefghij$/'' =
     Inl (RTCError SYNTAX_ERROR ufrag_chars_message) \<and>
   ParseIcePwd rfc_constants ''0123456789abcdefghij$/'' =
     Inl (RTCError SYNTAX_ERROR pwd_chars_message)"
proof -
  have good: "set ''0123456789abcdefghij+/'' \<subseteq> set ice_chars"
    by (simp add: ice_chars_def alnum_chars_def)
  have bad: "\<not> set ''0123456789abcdefghij$/'' \<subseteq> set ice_chars"
    by (simp add: ice_chars_def alnum_chars_def)
  have bounds:
    "ICE_UFRAG_MIN_LENGTH rfc_constants \<le> 22" "22 \<le> ICE_UFRAG_MAX_LENGTH rfc_constants"
    "ICE_PWD_MIN_LENGTH rfc_constants \<le> 22" "22 \<le> ICE_PWD_MAX_LENGTH rfc_constants"
    by (simp_all add: rfc_constants_def)
  from ParseIce_within_bounds [of rfc_constants "''0123456789abcdefghij+/''"] good bounds
  have "ParseIceUfrag rfc_constants ''0123456789abcdefghij+/'' = Inr ''0123456789abcdefghij+/'' \<and>
        ParseIcePwd rfc_constants ''0123456789abcdefghij+/'' = Inr ''0123456789abcdefghij+/''"
    by auto
  moreover
  from ParseIce_within_bounds [of rfc_constants "''0123456789abcdefghij$/''"] bad bounds
  have "ParseIceUfrag rfc_constants ''0123456789abcdefghij$/'' =
          Inl (RTCError SYNTAX_ERROR ufrag_chars_message) \<and>
        ParseIcePwd rfc_constants ''0123456789abcdefghij$/'' =
          Inl (RTCError SYNTAX_ERROR pwd_chars_message)"
    by auto
  ultimately show ?thesis by simp
qed

text \<open>
  Claim C3. For a string whose length is outside the ufrag bounds, \<^verbatim>\<open>ParseIceUfrag\<close>
  fails with a \<^verbatim>\<open>SYNTAX_ERROR\<close> whose message names the ufrag and both bounds,
  whatever characters the string holds: the length is checked first, so the error is
  never the character-set error. The same holds for \<^verbatim>\<open>ParseIcePwd\<close> and the pwd bounds.
\<close>

theorem ParseIce_length_checked_first:
  "(\<not> (ICE_UFRAG_MIN_LENGTH k \<le> length s \<and> length s \<le> ICE_UFRAG_MAX_LENGTH k) \<longrightarrow>
      ParseIceUfrag k s =
        Inl (RTCError SYNTAX_ERROR
              (''ICE ufrag must be between '' @ string_of_nat (ICE_UFRAG_MIN_LENGTH k) @
               '' and '' @ string_of_nat (ICE_UFRAG_MAX_LENGTH k) @ '' characters long.'')) \<and>
      ParseIceUfrag k s \<noteq> Inl (RTCError SYNTAX_ERROR ufrag_chars_message)) \<and>
   (\<not> (ICE_PWD_MIN_LENGTH k \<le> length s \<and> length s \<le> ICE_PWD_MAX_LENGTH k) \<longrightarrow>
      ParseIcePwd k s =
        Inl (RTCError SYNTAX_ERROR
              (''ICE pwd must be between '' @ string_of_nat (ICE_PWD_MIN_LENGTH k) @
               '' and '' @ string_of_nat (ICE_PWD_MAX_LENGTH k) @ '' characters long.'')) \<and>
      ParseIcePwd k s \<noteq> Inl (RTCError SYNTAX_ERROR pwd_chars_message))"
  by (simp add: ParseIceUfrag_def ParseIcePwd_def ufrag_length_message_def
        pwd_length_message_def ufrag_chars_message_def pwd_chars_message_def)

theorem ParseIce_length_checked_first_witness:
  "ParseIceUfrag rfc_constants ''a$'' =
     Inl (RTCError SYNTAX_ERROR ''ICE ufrag must be between 4 and 256 characters long.'') \<and>
   ParseIcePwd rfc_constants ''a$'' =
     Inl (RTCError SYNTAX_ERROR ''ICE pwd must be between 22 and 256 characters long.'')"
proof -
  have short:
    "\<not> (ICE_UFRAG_MIN_LENGTH rfc_constants \<le> length ''a$'' \<and>
        length ''a$'' \<le> ICE_UFRAG_MAX_LENGTH rfc_constants)"
    "\<not> (ICE_PWD_MIN_LENGTH rfc_constants \<le> length ''a$'' \<and>
        length ''a$'' \<le> ICE_PWD_MAX_LENGTH rfc_constants)"
    by (simp_all add: rfc_constants_def)
  have table:
    "ICE_UFRAG_MIN_LENGTH rfc_constants = 4" "ICE_UFRAG_MAX_LENGTH rfc_constants = 256"
    "ICE_PWD_MIN_LENGTH rfc_constants = 22" "ICE_PWD_MAX_LENGTH rfc_constants = 256"
    by (simp_all add: rfc_constants_def)
  from ParseIce_length_checked_first [of rfc_constants "''a$''"] short
  show ?thesis
    unfolding table rfc_bounds_rendered by simp
qed

text \<open>
  Claim C4. \<^verbatim>\<open>IceParameters::Parse\<close> of two empty strings succeeds with both fields
  empty, whatever the length bounds are: no validation runs on this path. The path is
  taken only there: for inputs that are not both empty the call succeeds exactly when
  both the ufrag and the pwd pass their own validation, and then it returns the two
  inputs.
\<close>

theorem IceParameters_Parse_both_empty:
  "IceParameters_Parse k [] [] = Inr \<lparr>ufrag = [], pwd = []\<rparr> \<and>
   (\<not> (raw_ufrag = [] \<and> raw_pwd = []) \<longrightarrow>
      (ok (IceParameters_Parse k raw_ufrag raw_pwd) \<longleftrightarrow>
         ok (ParseIceUfrag k raw_ufrag) \<and> ok (ParseIcePwd k raw_pwd)) \<and>
      (ok (IceParameters_Parse k raw_ufrag raw_pwd) \<longrightarrow>
         IceParameters_Parse k raw_ufrag raw_pwd =
           Inr \<lparr>ufrag = raw_ufrag, pwd = raw_pwd\<rparr>))"
proof (intro conjI impI)
  show "IceParameters_Parse k [] [] = Inr \<lparr>ufrag = [], pwd = []\<rparr>"
    by (simp add: IceParameters_Parse_def IceParameters_default_def)
next
  assume some: "\<not> (raw_ufrag = [] \<and> raw_pwd = [])"
  then show "ok (IceParameters_Parse k raw_ufrag raw_pwd) \<longleftrightarrow>
      ok (ParseIceUfrag k raw_ufrag) \<and> ok (ParseIcePwd k raw_pwd)"
    by (auto simp: IceParameters_Parse_def ok_def split: sum.splits)
next
  assume some: "\<not> (raw_ufrag = [] \<and> raw_pwd = [])"
    and success: "ok (IceParameters_Parse k raw_ufrag raw_pwd)"
  from some success obtain u p where
    parsed: "ParseIceUfrag k raw_ufrag = Inr u" "ParseIcePwd k raw_pwd = Inr p"
    by (auto simp: IceParameters_Parse_def ok_def split: sum.splits)
  then have "u = raw_ufrag" and "p = raw_pwd"
    by (auto simp: ParseIceUfrag_def ParseIcePwd_def split: if_splits)
  with some parsed show "IceParameters_Parse k raw_ufrag raw_pwd =
      Inr \<lparr>ufrag = raw_ufrag, pwd = raw_pwd\<rparr>"
    by (auto simp: IceParameters_Parse_def IceParameters_default_def)
qed

theorem IceParameters_Parse_both_empty_witness:
  "IceParameters_Parse rfc_constants [] [] = Inr \<lparr>ufrag = [], pwd = []\<rparr> \<and>
   \<not> ok (ParseIceUfrag rfc_constants []) \<and>
   \<not> ok (IceParameters_Parse rfc_constants ''x'' ''$$$'') \<and>
   \<not> ok (IceParameters_Parse rfc_constants [] ''0123456789abcdefghij+/'') \<and>
   \<not> ok (IceParameters_Parse rfc_constants ''abcd'' []) \<and>
   IceParameters_Parse rfc_constants ''abcd'' ''0123456789abcdefghij+/'' =
     Inr \<lparr>ufrag = ''abcd'', pwd = ''0123456789abcdefghij+/''\<rparr>"
proof -
  have empty_ufrag: "\<not> ok (ParseIceUfrag rfc_constants [])"
    and short_ufrag: "\<not> ok (ParseIceUfrag rfc_constants ''x'')"
    and empty_pwd: "\<not> ok (ParseIcePwd rfc_constants [])"
    by (simp_all add: ParseIceUfrag_def ParseIcePwd_def ok_def rfc_constants_def)
  have good_ufrag: "ok (ParseIceUfrag rfc_constants ''abcd'')"
    by (simp add: ParseIceUfrag_def ok_def rfc_constants_def IsIceChar_def ascii_isalnum_def)
  have good_pwd: "ok (ParseIcePwd rfc_constants ''0123456789abcdefghij+/'')"
    by (simp add: ParseIcePwd_def ok_def rfc_constants_def IsIceChar_def ascii_isalnum_def)
  have "IceParameters_Parse rfc_constants [] [] = Inr \<lparr>ufrag = [], pwd = []\<rparr>"
    using IceParameters_Parse_both_empty [of rfc_constants] by simp
  moreover have "\<not> ok (IceParameters_Parse rfc_constants ''x'' ''$$$'')"
    using IceParameters_Parse_both_empty [of rfc_constants "''x''" "''$$$''"] short_ufrag
    by simp
  moreover have "\<not> ok (IceParameters_Parse rfc_constants [] ''0123456789abcdefghij+/'')"
    using IceParameters_Parse_both_empty [of rfc_constants "[]" "''0123456789abcdefghij+/''"]
      empty_ufrag by simp
  moreover have "\<not> ok (IceParameters_Parse rfc_constants ''abcd'' [])"
    using IceParameters_Parse_both_empty [of rfc_constants "''abcd''" "[]"] empty_pwd
    by simp
  moreover have "IceParameters_Parse rfc_constants ''abcd'' ''0123456789abcdefghij+/'' =
      Inr \<lparr>ufrag = ''abcd'', pwd = ''0123456789abcdefghij+/''\<rparr>"
    using IceParameters_Parse_both_empty
            [of rfc_constants "''abcd''" "''0123456789abcdefghij+/''"] good_ufrag good_pwd
    by simp
  ultimately show ?thesis
    using empty_ufrag by simp
qed

text \<open>
  Claim C5. When the two inputs are not both empty, \<^verbatim>\<open>IceParameters::Parse\<close> returns
  the ufrag error if the ufrag does not parse, whatever the pwd is; returns the pwd error
  if the ufrag parses and the pwd does not; and otherwise returns the two parsed strings.
\<close>

theorem IceParameters_Parse_order:
  assumes "\<not> (raw_ufrag = [] \<and> raw_pwd = [])"
  shows "(ParseIceUfrag k raw_ufrag = Inl e \<longrightarrow>
            IceParameters_Parse k raw_ufrag raw_pwd = Inl e) \<and>
         (ParseIceUfrag k raw_ufrag = Inr u \<and> ParseIcePwd k raw_pwd = Inl e \<longrightarrow>
            IceParameters_Parse k raw_ufrag raw_pwd = Inl e) \<and>
         (ParseIceUfrag k raw_ufrag = Inr u \<and> ParseIcePwd k raw_pwd = Inr p \<longrightarrow>
            IceParameters_Parse k raw_ufrag raw_pwd = Inr \<lparr>ufrag = u, pwd = p\<rparr>)"
  using assms by (auto simp: IceParameters_Parse_def IceParameters_default_def)

theorem IceParameters_Parse_order_witness:
  "IceParameters_Parse rfc_constants ''ab'' ''$'' =
     Inl (RTCError SYNTAX_ERROR (ufrag_length_message rfc_constants)) \<and>
   IceParameters_Parse rfc_constants ''abcd'' ''0123456789abcdefghij$/'' =
     Inl (RTCError SYNTAX_ERROR pwd_chars_message) \<and>
   IceParameters_Parse rfc_constants ''abcd'' ''0123456789abcdefghij+/'' =
     Inr \<lparr>ufrag = ''abcd'', pwd = ''0123456789abcdefghij+/''\<rparr>"
proof -
  have ufrag_bad: "ParseIceUfrag rfc_constants ''ab'' =
      Inl (RTCError SYNTAX_ERROR (ufrag_length_message rfc_constants))"
    by (simp add: ParseIceUfrag_def rfc_constants_def)
  have ufrag_good: "ParseIceUfrag rfc_constants ''abcd'' = Inr ''abcd''"
    by (simp add: ParseIceUfrag_def rfc_constants_def IsIceChar_def ascii_isalnum_def)
  have pwd_bad: "ParseIcePwd rfc_constants ''0123456789abcdefghij$/'' =
      Inl (RTCError SYNTAX_ERROR pwd_chars_message)"
    by (simp add: ParseIcePwd_def rfc_constants_def IsIceChar_def ascii_isalnum_def)
  have pwd_good: "ParseIcePwd rfc_constants ''0123456789abcdefghij+/'' =
      Inr ''0123456789abcdefghij+/''"
    by (simp add: ParseIcePwd_def rfc_constants_def IsIceChar_def ascii_isalnum_def)
  have "IceParameters_Parse rfc_constants ''ab'' ''$'' =
      Inl (RTCError SYNTAX_ERROR (ufrag_length_message rfc_constants))"
    using IceParameters_Parse_order [of "''ab''" "''$''" rfc_constants] ufrag_bad by simp
  moreover have "IceParameters_Parse rfc_constants ''abcd'' ''0123456789abcdefghij$/'' =
      Inl (RTCError SYNTAX_ERROR pwd_chars_message)"
    using IceParameters_Parse_order [of "''abcd''" "''0123456789abcdefghij$/''" rfc_constants]
      ufrag_good pwd_bad by simp
  moreover have "IceParameters_Parse rfc_constants ''abcd'' ''0123456789abcdefghij+/'' =
      Inr \<lparr>ufrag = ''abcd'', pwd = ''0123456789abcdefghij+/''\<rparr>"
    using IceParameters_Parse_order [of "''abcd''" "''0123456789abcdefghij+/''" rfc_constants]
      ufrag_good pwd_good by simp
  ultimately show ?thesis by simp
qed

section \<open>Results on the connection-role conversions\<close>

lemmas role_values =
  CONNECTIONROLE_NONE_def CONNECTIONROLE_ACTIVE_def CONNECTIONROLE_PASSIVE_def
  CONNECTIONROLE_ACTPASS_def CONNECTIONROLE_HOLDCONN_def

lemma ascii_tolower_idem: "ascii_tolower (ascii_tolower c) = ascii_tolower c"
  by (simp add: ascii_tolower_def Let_def of_char_of)

lemma ascii_tolower_toupper: "ascii_tolower (ascii_toupper c) = ascii_tolower c"
proof (cases "97 \<le> (of_char c :: nat) \<and> (of_char c :: nat) \<le> 122")
  case True
  then have up: "ascii_toupper c = char_of ((of_char c :: nat) - 32)"
    by (simp add: ascii_toupper_def)
  from True have "(of_char c :: nat) - 32 < 256"
    by linarith
  then have code: "(of_char (char_of ((of_char c :: nat) - 32) :: char) :: nat) = of_char c - 32"
    by (simp add: of_char_of)
  from True have bounds: "65 \<le> (of_char c :: nat) - 32 \<and> (of_char c :: nat) - 32 \<le> 90"
    and restore: "(of_char c :: nat) - 32 + 32 = of_char c"
    by linarith+
  have "ascii_tolower (char_of ((of_char c :: nat) - 32)) = char_of (of_char c :: nat)"
    unfolding ascii_tolower_def Let_def code using bounds restore by simp
  moreover from True have "ascii_tolower c = c"
    by (simp add: ascii_tolower_def)
  ultimately show ?thesis using up by simp
next
  case False
  then show ?thesis by (auto simp: ascii_toupper_def Let_def)
qed

lemma same_up_to_case_tolower:
  "same_up_to_case s t \<Longrightarrow> map ascii_tolower s = map ascii_tolower t"
  unfolding same_up_to_case_def
  by (induction s t rule: list_all2_induct)
     (auto simp: ascii_tolower_idem ascii_tolower_toupper)

lemma same_up_to_case_EqualsIgnoreCase:
  "same_up_to_case s t \<Longrightarrow> EqualsIgnoreCase t s"
  using same_up_to_case_tolower [of s t]
  by (simp add: EqualsIgnoreCase_def same_up_to_case_def list_all2_lengthD)

lemma loop_no_match:
  "(\<And>j. i \<le> j \<Longrightarrow> j < length roles \<Longrightarrow> \<not> EqualsIgnoreCase (roles ! j) role_str) \<Longrightarrow>
   StringToConnectionRole_loop roles i role_str role = (False, role)"
proof (induction roles i role_str role rule: StringToConnectionRole_loop.induct)
  case (1 roles i role_str role)
  show ?case
  proof (cases "i < length roles")
    case True
    with 1 show ?thesis
      by (simp add: StringToConnectionRole_loop.simps [of roles i])
  next
    case False
    then show ?thesis
      by (simp add: StringToConnectionRole_loop.simps [of roles i])
  qed
qed

lemma loop_first_match:
  "i \<le> j \<Longrightarrow> j < length roles \<Longrightarrow> EqualsIgnoreCase (roles ! j) role_str \<Longrightarrow>
   (\<And>j'. i \<le> j' \<Longrightarrow> j' < j \<Longrightarrow> \<not> EqualsIgnoreCase (roles ! j') role_str) \<Longrightarrow>
   StringToConnectionRole_loop roles i role_str role = (True, CONNECTIONROLE_ACTIVE + int j)"
proof (induction roles i role_str role rule: StringToConnectionRole_loop.induct)
  case (1 roles i role_str role)
  show ?case
  proof (cases "i = j")
    case True
    with 1(3,4) show ?thesis
      by (subst StringToConnectionRole_loop.simps) simp
  next
    case False
    with 1 have "i < j" and "\<not> EqualsIgnoreCase (roles ! i) role_str" by simp_all
    with 1 show ?thesis
      by (simp add: StringToConnectionRole_loop.simps [of roles i])
  qed
qed

lemma loop_result:
  "StringToConnectionRole_loop roles i role_str role = (found, role') \<Longrightarrow>
   (found \<longrightarrow> (\<exists>j. i \<le> j \<and> j < length roles \<and> EqualsIgnoreCase (roles ! j) role_str \<and>
              role' = CONNECTIONROLE_ACTIVE + int j)) \<and>
   (\<not> found \<longrightarrow> role' = role \<and> (\<forall>j. i \<le> j \<and> j < length roles \<longrightarrow> \<not> EqualsIgnoreCase (roles ! j) role_str))"
proof (induction roles i role_str role rule: StringToConnectionRole_loop.induct)
  case (1 roles i role_str role)
  show ?case
  proof (cases "i < length roles")
    case True
    note inb = this
    show ?thesis
    proof (cases "EqualsIgnoreCase (roles ! i) role_str")
      case True
      with inb 1(2) show ?thesis
        by (auto simp: StringToConnectionRole_loop.simps [of roles i])
    next
      case False
      with inb 1(2) have "StringToConnectionRole_loop roles (Suc i) role_str role = (found, role')"
        by (simp add: StringToConnectionRole_loop.simps [of roles i])
      from 1(1) [OF inb False this] False show ?thesis
        by (metis Suc_leD Suc_leI le_neq_implies_less)
    qed
  next
    case False
    with 1(2) show ?thesis
      by (auto simp: StringToConnectionRole_loop.simps [of roles i])
  qed
qed


text \<open>
  Claim C6. For each of the four roles Active, Passive, ActPass and HoldConn,
  \<^verbatim>\<open>ConnectionRoleToString\<close> succeeds with the role's token, and
  \<^verbatim>\<open>StringToConnectionRole\<close> applied to that token, or to the token written in any
  other letter case, succeeds and gives the role back. The four tokens are distinct
  when letter case is ignored, as the protocol's tokens are.
\<close>

theorem connection_role_round_trip:
  assumes tokens: "distinct (map (map ascii_tolower \<circ> snd) (role_tokens k))"
    and listed: "(role, token) \<in> set (role_tokens k)"
    and variant: "same_up_to_case s token"
  shows "ConnectionRoleToString k role out = (True, token) \<and>
         StringToConnectionRole k token r = (True, role) \<and>
         StringToConnectionRole k s r = (True, role)"
proof -
  let ?roles = "[CONNECTIONROLE_ACTIVE_STR k, CONNECTIONROLE_PASSIVE_STR k,
                 CONNECTIONROLE_ACTPASS_STR k, CONNECTIONROLE_HOLDCONN_STR k]"
  from listed obtain j where j: "j < 4" "role = CONNECTIONROLE_ACTIVE + int j" "token = ?roles ! j"
    unfolding role_tokens_def role_values
    by (auto intro: that [of 0] that [of 1] that [of 2] that [of 3])
  have to_string: "ConnectionRoleToString k role out = (True, token)"
    using listed by (auto simp: role_tokens_def ConnectionRoleToString_def role_values)
  have others: "map ascii_tolower (?roles ! j') \<noteq> map ascii_tolower token" if "j' < j" for j'
  proof -
    from tokens have "distinct (map (map ascii_tolower) ?roles)"
      by (simp add: role_tokens_def)
    moreover from that j have "j' < length ?roles" "j < length ?roles" "j' \<noteq> j" by simp_all
    ultimately have "map (map ascii_tolower) ?roles ! j' \<noteq> map (map ascii_tolower) ?roles ! j"
      by (simp only: nth_eq_iff_index_eq length_map) simp
    with that j show ?thesis
      by (simp only: nth_map \<open>j' < length ?roles\<close> \<open>j < length ?roles\<close>) simp
  qed
  have from_string: "StringToConnectionRole k t r = (True, role)" if "same_up_to_case t token" for t
  proof -
    from that have lower: "map ascii_tolower t = map ascii_tolower token"
      by (rule same_up_to_case_tolower)
    from that have "EqualsIgnoreCase (?roles ! j) t"
      using j by (simp add: same_up_to_case_EqualsIgnoreCase)
    moreover have "\<not> EqualsIgnoreCase (?roles ! j') t" if "j' < j" for j'
      using others [OF that] lower by (simp add: EqualsIgnoreCase_def)
    ultimately have "StringToConnectionRole_loop ?roles 0 t r = (True, CONNECTIONROLE_ACTIVE + int j)"
      using j by (intro loop_first_match) simp_all
    with j show ?thesis
      by (simp add: StringToConnectionRole_def)
  qed
  have "same_up_to_case token token"
    by (simp add: same_up_to_case_def list_all2_same)
  with to_string from_string variant show ?thesis by simp
qed

theorem connection_role_round_trip_witness:
  "ConnectionRoleToString rfc_constants CONNECTIONROLE_ACTIVE [] = (True, ''active'') \<and>
   StringToConnectionRole rfc_constants ''active'' CONNECTIONROLE_NONE =
     (True, CONNECTIONROLE_ACTIVE) \<and>
   StringToConnectionRole rfc_constants ''ACTIVE'' CONNECTIONROLE_NONE =
     (True, CONNECTIONROLE_ACTIVE) \<and>
   StringToConnectionRole rfc_constants ''Active'' CONNECTIONROLE_NONE =
     (True, CONNECTIONROLE_ACTIVE) \<and>
   ConnectionRoleToString rfc_constants CONNECTIONROLE_HOLDCONN [] = (True, ''holdconn'') \<and>
   StringToConnectionRole rfc_constants ''HoldConn'' CONNECTIONROLE_NONE =
     (True, CONNECTIONROLE_HOLDCONN)"
proof -
  have tokens: "distinct (map (map ascii_tolower \<circ> snd) (role_tokens rfc_constants))"
    by code_simp
  have active: "(CONNECTIONROLE_ACTIVE, ''active'') \<in> set (role_tokens rfc_constants)"
    and holdconn: "(CONNECTIONROLE_HOLDCONN, ''holdconn'') \<in> set (role_tokens rfc_constants)"
    by (simp_all add: role_tokens_def rfc_constants_def)
  have upper: "same_up_to_case ''ACTIVE'' ''active''"
    and capital: "same_up_to_case ''Active'' ''active''"
    and mixed: "same_up_to_case ''HoldConn'' ''holdconn''"
    by code_simp+
  from connection_role_round_trip [OF tokens active upper]
    connection_role_round_trip [OF tokens active capital]
    connection_role_round_trip [OF tokens holdconn mixed]
  show ?thesis by simp
qed

text \<open>
  Claim C8. \<^verbatim>\<open>ConnectionRoleToString\<close> succeeds exactly on the four roles Active,
  Passive, ActPass and HoldConn; on None and on every other value it fails.
\<close>

theorem ConnectionRoleToString_succeeds_iff:
  "(fst (ConnectionRoleToString k role out) \<longleftrightarrow>
      role \<in> {CONNECTIONROLE_ACTIVE, CONNECTIONROLE_PASSIVE,
              CONNECTIONROLE_ACTPASS, CONNECTIONROLE_HOLDCONN}) \<and>
   \<not> fst (ConnectionRoleToString k CONNECTIONROLE_NONE out)"
  by (simp add: ConnectionRoleToString_def role_values)

theorem ConnectionRoleToString_succeeds_iff_witness:
  "fst (ConnectionRoleToString rfc_constants CONNECTIONROLE_ACTPASS []) \<and>
   \<not> fst (ConnectionRoleToString rfc_constants 7 []) \<and>
   \<not> fst (ConnectionRoleToString rfc_constants (- 1) []) \<and>
   \<not> fst (ConnectionRoleToString rfc_constants CONNECTIONROLE_NONE [])"
  using ConnectionRoleToString_succeeds_iff [of rfc_constants CONNECTIONROLE_ACTPASS "[]"]
    ConnectionRoleToString_succeeds_iff [of rfc_constants 7 "[]"]
    ConnectionRoleToString_succeeds_iff [of rfc_constants "- 1" "[]"]
  by (simp add: role_values)

text \<open>
  Claim C10. \<^verbatim>\<open>StringToConnectionRole\<close> fails exactly when the text matches none of
  the four tokens, and then the role behind the out-parameter is what it was before the
  call; when \<^verbatim>\<open>ConnectionRoleToString\<close> fails, the string behind its out-parameter
  is what it was before the call.
\<close>

theorem role_out_parameter_kept_on_failure:
  "(\<not> fst (StringToConnectionRole k role_str role) \<longrightarrow>
      snd (StringToConnectionRole k role_str role) = role) \<and>
   (\<not> fst (ConnectionRoleToString k r out) \<longrightarrow>
      snd (ConnectionRoleToString k r out) = out) \<and>
   (fst (StringToConnectionRole k role_str role) \<longleftrightarrow>
      (\<exists>t \<in> set [CONNECTIONROLE_ACTIVE_STR k, CONNECTIONROLE_PASSIVE_STR k,
                  CONNECTIONROLE_ACTPASS_STR k, CONNECTIONROLE_HOLDCONN_STR k].
         EqualsIgnoreCase t role_str))"
proof -
  let ?roles = "[CONNECTIONROLE_ACTIVE_STR k, CONNECTIONROLE_PASSIVE_STR k,
                 CONNECTIONROLE_ACTPASS_STR k, CONNECTIONROLE_HOLDCONN_STR k]"
  obtain found role' where res: "StringToConnectionRole_loop ?roles 0 role_str role = (found, role')"
    by (cases "StringToConnectionRole_loop ?roles 0 role_str role")
  note loop = loop_result [OF res]
  have call: "StringToConnectionRole k role_str role = (found, role')"
    using res by (simp add: StringToConnectionRole_def)
  have "found \<longleftrightarrow> (\<exists>t \<in> set ?roles. EqualsIgnoreCase t role_str)"
  proof
    assume found
    with loop obtain j where "j < length ?roles" "EqualsIgnoreCase (?roles ! j) role_str"
      by blast
    then show "\<exists>t \<in> set ?roles. EqualsIgnoreCase t role_str"
      using nth_mem by blast
  next
    assume "\<exists>t \<in> set ?roles. EqualsIgnoreCase t role_str"
    then obtain j where "j < length ?roles" "EqualsIgnoreCase (?roles ! j) role_str"
      by (metis in_set_conv_nth)
    with loop show found by blast
  qed
  moreover from loop have "\<not> found \<longrightarrow> role' = role" by blast
  moreover have "\<not> fst (ConnectionRoleToString k r out) \<longrightarrow>
      snd (ConnectionRoleToString k r out) = out"
    by (simp add: ConnectionRoleToString_def)
  ultimately show ?thesis
    unfolding call by simp
qed

theorem role_out_parameter_kept_on_failure_witness:
  "StringToConnectionRole rfc_constants ''server'' CONNECTIONROLE_ACTPASS =
     (False, CONNECTIONROLE_ACTPASS) \<and>
   ConnectionRoleToString rfc_constants CONNECTIONROLE_NONE ''unchanged'' =
     (False, ''unchanged'')"
proof -
  have no_match:
    "\<not> (\<exists>t \<in> set [CONNECTIONROLE_ACTIVE_STR rfc_constants,
                     CONNECTIONROLE_PASSIVE_STR rfc_constants,
                     CONNECTIONROLE_ACTPASS_STR rfc_constants,
                     CONNECTIONROLE_HOLDCONN_STR rfc_constants].
           EqualsIgnoreCase t ''server'')"
    by code_simp
  have no_token: "\<not> fst (ConnectionRoleToString rfc_constants CONNECTIONROLE_NONE ''unchanged'')"
    by (simp add: ConnectionRoleToString_def role_values)
  from role_out_parameter_kept_on_failure
         [of rfc_constants "''server''" CONNECTIONROLE_ACTPASS CONNECTIONROLE_NONE "''unchanged''"]
    no_match no_token
  have "\<not> fst (StringToConnectionRole rfc_constants ''server'' CONNECTIONROLE_ACTPASS) \<and>
        snd (StringToConnectionRole rfc_constants ''server'' CONNECTIONROLE_ACTPASS) =
          CONNECTIONROLE_ACTPASS \<and>
        snd (ConnectionRoleToString rfc_constants CONNECTIONROLE_NONE ''unchanged'') =
          ''unchanged''"
    by blast
  with no_token show ?thesis
    by (simp add: prod_eq_iff)
qed

section \<open>Results on copying transport descriptions\<close>

subsection \<open>Reading the heap after an allocation or a release\<close>









subsection \<open>The two copy operations step by step\<close>













text \<open>
  Claim C9. Assigning an instance to itself returns with memory exactly as it was: no
  field of the instance, no other instance and no heap cell changes.
\<close>

theorem TransportDescription_self_assign:
  "TransportDescription_assign m this this = Some m"
  by (simp add: TransportDescription_assign_def)

theorem TransportDescription_self_assign_witness:
  "TransportDescription_assign example_memory 0 0 = Some example_memory \<and>
   identity_fingerprint (descriptions example_memory 0) = Some 0"
  using TransportDescription_self_assign [of example_memory 0]
  by (simp add: example_memory_def)

end
